theory Spec2Isabelle
  imports Main
begin

section \<open>Alumni portal backend: data model\<close>

text \<open>
  The embedding follows \<^verbatim>\<open>server.js\<close>. A MongoDB collection is the list of its
  documents in natural (insertion) order, a document is a record with the fields of its
  Mongoose schema, and a route handler is a function from the request and the database
  to the response and the database after it.

  A JavaScript string is modelled as a \<^typ>\<open>string\<close> with one \<^typ>\<open>char\<close> for each
  code unit, which covers the strings whose code units are below 256. A field of a
  request body or query that may be absent is a \<^typ>\<open>string option\<close>
  (\<^term>\<open>None\<close> for \<^verbatim>\<open>undefined\<close>); bodies that carry objects or arrays where the
  handler expects a string are outside the model. An ObjectId is a natural number, so
  every identifier in the model is well formed.
\<close>

type_synonym oid = nat
type_synonym date = nat

record University =
  ident :: oid
  name :: string
  slug :: string
  email :: string
  password :: string
  logo :: string
  description :: string
  createdAt :: date

record User =
  ident :: oid
  name :: string
  email :: string
  password :: string
  phone :: string
  profilePhoto :: string
  role :: string
  university :: "oid option"
  status :: string
  parentEmail :: string
  parentPhone :: string
  rollNumber :: string
  courseDegree :: string
  school :: string
  graduationYear :: "int option"
  currentCity :: string
  hometown :: string
  company :: string
  designation :: string
  bio :: string
  createdAt :: date

record Post =
  ident :: oid
  title :: string
  content :: string
  author :: "oid option"
  university :: "oid option"
  image :: string
  type :: string
  likes :: "oid list"
  createdAt :: date
  updatedAt :: date

record Comment =
  ident :: oid
  content :: string
  author :: "oid option"
  post :: "oid option"
  createdAt :: date

record Workshop =
  ident :: oid
  title :: string
  description :: string
  date :: date
  time :: string
  location :: string
  isOnline :: bool
  meetingLink :: string
  creator :: "oid option"
  university :: "oid option"
  attendees :: "oid list"
  image :: string
  createdAt :: date

record Message =
  ident :: oid
  sender :: "oid option"
  receiver :: "oid option"
  content :: string
  read :: bool
  createdAt :: date

text \<open>The six models of the source, one collection each.\<close>

record db =
  universities :: "University list"
  users :: "User list"
  posts :: "Post list"
  comments :: "Comment list"
  workshops :: "Workshop list"
  messages :: "Message list"

subsection \<open>What the handlers take from outside the source\<close>

text \<open>
  \<^verbatim>\<open>bcryptjs\<close> and \<^verbatim>\<open>jsonwebtoken\<close> are libraries, so their functions are
  fields of the environment. So are the two built-ins that rest on tables of the language,
  \<^verbatim>\<open>String.prototype.toLowerCase\<close> and \<^verbatim>\<open>parseInt\<close> (\<^term>\<open>None\<close> for
  \<^verbatim>\<open>NaN\<close>), and the values the runtime hands to one request: the clock, the salt
  \<^verbatim>\<open>bcrypt.genSalt(10)\<close> draws, and the ObjectId that \<^verbatim>\<open>new Model(...)\<close>
  generates. The signing secret is fixed inside \<open>jwt_sign\<close> and \<open>jwt_verify\<close>.
\<close>

record jwt_payload =
  userId :: oid
  iat :: date
  exp :: date

record env =
  bcrypt_hash :: "string \<Rightarrow> string \<Rightarrow> string"
  bcrypt_compare :: "string \<Rightarrow> string \<Rightarrow> bool"
  jwt_sign :: "oid \<Rightarrow> date \<Rightarrow> string"
  jwt_verify :: "string \<Rightarrow> date \<Rightarrow> jwt_payload option"
  toLowerCase :: "string \<Rightarrow> string"
  parseInt :: "string \<Rightarrow> int option"
  now :: date
  genSalt :: string
  objectId :: oid

subsection \<open>Responses\<close>

text \<open>
  An exception caught by a handler's \<^verbatim>\<open>catch\<close> becomes the body
  \<^verbatim>\<open>{error: error.message}\<close> of a 500 response; the model keeps the kind of the
  exception in place of the library's message text.
\<close>

datatype failure = ValidationError | DuplicateKey | IllegalArguments | CastError

record directory_entry =
  ident :: oid
  name :: string
  email :: string
  company :: string
  designation :: string
  currentCity :: string
  graduationYear :: "int option"
  profilePhoto :: string

datatype body =
    ErrorMsg string
  | ErrorExn failure
  | UniversityAuth string string University
  | UserSignup string string User
  | UserLogin string string User "University option"
  | UserUpdated string "User option"
  | WorkshopUpdated string "Workshop option"
  | UserList "directory_entry list"

type_synonym response = "nat \<times> body"

section \<open>Helper functions\<close>

text \<open>\<^verbatim>\<open>!x\<close> on a value that is a string or \<^verbatim>\<open>undefined\<close>.\<close>

definition falsy :: "string option \<Rightarrow> bool" where
  "falsy x = (case x of None \<Rightarrow> True | Some s \<Rightarrow> s = [])"

text \<open>
  \<^verbatim>\<open>hashPassword\<close> and \<^verbatim>\<open>comparePassword\<close>: \<^verbatim>\<open>bcryptjs\<close> rejects
  an argument that is not a string, which the calling handler catches.
\<close>

definition hashPassword :: "env \<Rightarrow> string option \<Rightarrow> failure + string" where
  "hashPassword E pw =
     (case pw of
        None \<Rightarrow> Inl IllegalArguments
      | Some p \<Rightarrow> Inr (bcrypt_hash E p (genSalt E)))"

definition comparePassword :: "env \<Rightarrow> string option \<Rightarrow> string \<Rightarrow> failure + bool" where
  "comparePassword E pw h =
     (case pw of
        None \<Rightarrow> Inl IllegalArguments
      | Some p \<Rightarrow> Inr (bcrypt_compare E p h))"

definition generateToken :: "env \<Rightarrow> oid \<Rightarrow> string" where
  "generateToken E i = jwt_sign E i (now E)"

subsection \<open>The authorization middleware\<close>

text \<open>\<^verbatim>\<open>s.split(' ')\<close>: the segments between single spaces, empty ones included.\<close>

fun split_space :: "string \<Rightarrow> string list" where
  "split_space [] = [[]]"
| "split_space (c # cs) =
     (if c = CHR '' '' then [] # split_space cs
      else (case split_space cs of
              [] \<Rightarrow> [[c]]
            | w # ws \<Rightarrow> (c # w) # ws))"

text \<open>\<^verbatim>\<open>xs[i]\<close>, which is \<^verbatim>\<open>undefined\<close> out of range.\<close>

definition index :: "'a list \<Rightarrow> nat \<Rightarrow> 'a option" where
  "index xs i = (if i < length xs then Some (xs ! i) else None)"

text \<open>\<^verbatim>\<open>req.headers.authorization?.split(' ')[1]\<close>\<close>

definition bearer_token :: "string option \<Rightarrow> string option" where
  "bearer_token authorization =
     (case authorization of
        None \<Rightarrow> None
      | Some h \<Rightarrow> index (split_space h) 1)"

datatype 'a gate = Respond response | Next 'a

definition authMiddleware :: "env \<Rightarrow> string option \<Rightarrow> oid gate" where
  "authMiddleware E authorization =
     (case bearer_token authorization of
        None \<Rightarrow> Respond (401, ErrorMsg ''No token provided'')
      | Some token \<Rightarrow>
          if token = [] then Respond (401, ErrorMsg ''No token provided'')
          else (case jwt_verify E token (now E) of
                  None \<Rightarrow> Respond (401, ErrorMsg ''Invalid token'')
                | Some decoded \<Rightarrow> Next (userId decoded)))"

section \<open>Store operations\<close>

text \<open>\<^verbatim>\<open>Model.findOne({email})\<close>: the first document whose email is the given string.
  Every stored document has a string email, so an \<^verbatim>\<open>undefined\<close> email finds none.\<close>

definition findOne_university :: "University list \<Rightarrow> string option \<Rightarrow> University option" where
  "findOne_university us e =
     (case e of
        None \<Rightarrow> None
      | Some a \<Rightarrow> find (\<lambda>u. University.email u = a) us)"

definition findOne_user :: "User list \<Rightarrow> string option \<Rightarrow> User option" where
  "findOne_user us e =
     (case e of
        None \<Rightarrow> None
      | Some a \<Rightarrow> find (\<lambda>u. User.email u = a) us)"

definition findById_university :: "University list \<Rightarrow> oid \<Rightarrow> University option" where
  "findById_university us i = find (\<lambda>u. University.ident u = i) us"

definition findById_user :: "User list \<Rightarrow> oid \<Rightarrow> User option" where
  "findById_user us i = find (\<lambda>u. User.ident u = i) us"

definition findById_workshop :: "Workshop list \<Rightarrow> oid \<Rightarrow> Workshop option" where
  "findById_workshop ws i = find (\<lambda>w. Workshop.ident w = i) ws"

text \<open>
  \<^verbatim>\<open>Model.findByIdAndUpdate(id, update, {new: true})\<close>: the first document with the
  id is replaced by its update and returned; without such a document nothing is written
  and the result is \<^verbatim>\<open>null\<close>.
\<close>

fun update_first :: "('a \<Rightarrow> bool) \<Rightarrow> ('a \<Rightarrow> 'a) \<Rightarrow> 'a list \<Rightarrow> 'a list" where
  "update_first p f [] = []"
| "update_first p f (x # xs) = (if p x then f x # xs else x # update_first p f xs)"

definition findByIdAndUpdate_user ::
  "User list \<Rightarrow> oid \<Rightarrow> (User \<Rightarrow> User) \<Rightarrow> User option \<times> User list" where
  "findByIdAndUpdate_user us i f =
     (map_option f (findById_user us i), update_first (\<lambda>u. User.ident u = i) f us)"

definition findByIdAndUpdate_workshop ::
  "Workshop list \<Rightarrow> oid \<Rightarrow> (Workshop \<Rightarrow> Workshop) \<Rightarrow> Workshop option \<times> Workshop list" where
  "findByIdAndUpdate_workshop ws i f =
     (map_option f (findById_workshop ws i), update_first (\<lambda>w. Workshop.ident w = i) f ws)"

text \<open>
  \<^verbatim>\<open>document.save()\<close> of a new document. The schema's \<^verbatim>\<open>required\<close> strings must
  be present and non-empty, and the unique indexes (\<^verbatim>\<open>_id\<close> and the paths declared
  \<^verbatim>\<open>unique: true\<close>) refuse a value an existing document has.
\<close>

definition save_university :: "University list \<Rightarrow> University \<Rightarrow> failure + University list" where
  "save_university us u =
     (if University.name u = [] \<or> University.slug u = [] \<or> University.email u = []
         \<or> University.password u = []
      then Inl ValidationError
      else if (\<exists>v \<in> set us. University.ident v = University.ident u
                 \<or> University.name v = University.name u
                 \<or> University.slug v = University.slug u
                 \<or> University.email v = University.email u)
      then Inl DuplicateKey
      else Inr (us @ [u]))"

definition save_user :: "User list \<Rightarrow> User \<Rightarrow> failure + User list" where
  "save_user us u =
     (if User.name u = [] \<or> User.email u = [] \<or> User.password u = [] \<or> User.phone u = []
      then Inl ValidationError
      else if (\<exists>v \<in> set us. User.ident v = User.ident u \<or> User.email v = User.email u)
      then Inl DuplicateKey
      else Inr (us @ [u]))"

section \<open>Routes\<close>

subsection \<open>Request bodies\<close>

text \<open>
  The handlers destructure \<^verbatim>\<open>req.body\<close>; a body record has the fields its handler
  reads, and \<open>other\<close> holds whatever further keys the client sent.
\<close>

record register_body =
  name :: "string option"
  email :: "string option"
  password :: "string option"
  other :: "(string \<times> string) list"

record credentials =
  email :: "string option"
  password :: "string option"
  other :: "(string \<times> string) list"

record signup_body =
  name :: "string option"
  email :: "string option"
  password :: "string option"
  phone :: "string option"
  university :: "oid option"
  parentEmail :: "string option"
  parentPhone :: "string option"
  rollNumber :: "string option"
  other :: "(string \<times> string) list"

record directory_query =
  graduationYear :: "string option"
  currentCity :: "string option"
  company :: "string option"
  designation :: "string option"

subsection \<open>University routes\<close>

text \<open>
  \<^verbatim>\<open>s.replace(/\s+/g, '_')\<close>. The white space of a regular expression, among the
  code units below 256, is tab, line feed, vertical tab, form feed, carriage return,
  space and no-break space. The global replacement scans from the left; where a white
  space character stands, the greedy \<^verbatim>\<open>\s+\<close> takes all the white space that follows
  it and the match becomes one underscore.
\<close>

definition is_space :: "char \<Rightarrow> bool" where
  "is_space c = (of_char c \<in> {9, 10, 11, 12, 13, 32, 160 :: nat})"

function replace_spaces :: "string \<Rightarrow> string" where
  "replace_spaces [] = []"
| "replace_spaces (c # cs) =
     (if is_space c then CHR ''_'' # replace_spaces (dropWhile is_space cs)
      else c # replace_spaces cs)"
  by pat_completeness auto
termination
  by (relation "measure length") (auto simp: less_Suc_eq_le length_dropWhile_le)

definition make_slug :: "env \<Rightarrow> string \<Rightarrow> string" where
  "make_slug E n = replace_spaces (toLowerCase E n)"

text \<open>\<^verbatim>\<open>POST /api/university/register\<close>\<close>

definition register_university :: "env \<Rightarrow> register_body \<Rightarrow> db \<Rightarrow> response \<times> db" where
  "register_university E b d =
     (case (register_body.name b, register_body.email b, register_body.password b) of
        (Some n, Some e, Some p) \<Rightarrow>
          if n = [] \<or> e = [] \<or> p = [] then ((400, ErrorMsg ''All fields required''), d)
          else
            (let sl = make_slug E n in
             case hashPassword E (Some p) of
               Inl err \<Rightarrow> ((500, ErrorExn err), d)
             | Inr hashedPassword \<Rightarrow>
                 (let uni = \<lparr>University.ident = objectId E, name = n, slug = sl,
                              email = e, password = hashedPassword, logo = [],
                              description = [], createdAt = now E\<rparr>
                  in case save_university (universities d) uni of
                       Inl err \<Rightarrow> ((500, ErrorExn err), d)
                     | Inr us \<Rightarrow>
                         ((201, UniversityAuth ''University registered successfully''
                                  (generateToken E (University.ident uni)) uni),
                          d\<lparr>universities := us\<rparr>)))
      | _ \<Rightarrow> ((400, ErrorMsg ''All fields required''), d))"

text \<open>\<^verbatim>\<open>POST /api/university/login\<close>\<close>

definition login_university :: "env \<Rightarrow> credentials \<Rightarrow> db \<Rightarrow> response" where
  "login_university E b d =
     (case findOne_university (universities d) (credentials.email b) of
        None \<Rightarrow> (401, ErrorMsg ''Invalid credentials'')
      | Some uni \<Rightarrow>
          (case comparePassword E (credentials.password b) (University.password uni) of
             Inl err \<Rightarrow> (500, ErrorExn err)
           | Inr ok \<Rightarrow>
               if \<not> ok then (401, ErrorMsg ''Invalid credentials'')
               else (200, UniversityAuth ''Login successful''
                            (generateToken E (University.ident uni)) uni)))"

subsection \<open>Alumni routes\<close>

text \<open>
  \<^verbatim>\<open>new User({...})\<close> of the signup handler. The paths the handler does not set take
  their schema defaults. A string path that is \<^verbatim>\<open>undefined\<close> is the empty string of
  the document: that is the default of the optional paths, and \<^verbatim>\<open>save()\<close> refuses
  a required path that is empty as it refuses one that is missing.
\<close>

definition str :: "string option \<Rightarrow> string" where
  "str x = (case x of None \<Rightarrow> [] | Some s \<Rightarrow> s)"

definition new_User :: "env \<Rightarrow> signup_body \<Rightarrow> string \<Rightarrow> User" where
  "new_User E b hashedPassword =
     \<lparr>User.ident = objectId E,
      name = str (signup_body.name b),
      email = str (signup_body.email b),
      password = hashedPassword,
      phone = str (signup_body.phone b),
      profilePhoto = [],
      role = ''alumni'',
      university = signup_body.university b,
      status = ''pending'',
      parentEmail = str (signup_body.parentEmail b),
      parentPhone = str (signup_body.parentPhone b),
      rollNumber = str (signup_body.rollNumber b),
      courseDegree = [],
      school = [],
      graduationYear = None,
      currentCity = [],
      hometown = [],
      company = [],
      designation = [],
      bio = [],
      createdAt = now E\<rparr>"

text \<open>\<^verbatim>\<open>POST /api/auth/signup\<close>\<close>

definition signup :: "env \<Rightarrow> signup_body \<Rightarrow> db \<Rightarrow> response \<times> db" where
  "signup E b d =
     (case hashPassword E (signup_body.password b) of
        Inl err \<Rightarrow> ((500, ErrorExn err), d)
      | Inr hashedPassword \<Rightarrow>
          (let user = new_User E b hashedPassword
           in case save_user (users d) user of
                Inl err \<Rightarrow> ((500, ErrorExn err), d)
              | Inr us \<Rightarrow>
                  ((201, UserSignup ''Signup successful. Awaiting approval.''
                           (generateToken E (User.ident user)) user),
                   d\<lparr>users := us\<rparr>)))"

text \<open>\<^verbatim>\<open>.populate('university')\<close>: the reference becomes the document it names.\<close>

definition populate_university :: "University list \<Rightarrow> oid option \<Rightarrow> University option" where
  "populate_university us r =
     (case r of None \<Rightarrow> None | Some i \<Rightarrow> findById_university us i)"

text \<open>\<^verbatim>\<open>POST /api/auth/login\<close>\<close>

definition login :: "env \<Rightarrow> credentials \<Rightarrow> db \<Rightarrow> response" where
  "login E b d =
     (case findOne_user (users d) (credentials.email b) of
        None \<Rightarrow> (401, ErrorMsg ''Invalid credentials'')
      | Some user \<Rightarrow>
          (case comparePassword E (credentials.password b) (User.password user) of
             Inl err \<Rightarrow> (500, ErrorExn err)
           | Inr ok \<Rightarrow>
               if \<not> ok then (401, ErrorMsg ''Invalid credentials'')
               else if User.status user = ''rejected''
               then (403, ErrorMsg ''Your account has been rejected'')
               else (200, UserLogin ''Login successful''
                            (generateToken E (User.ident user)) user
                            (populate_university (universities d) (User.university user)))))"

subsection \<open>Admin routes\<close>

text \<open>\<^verbatim>\<open>PUT /api/admin/approve-user/:userId\<close> and
  \<^verbatim>\<open>PUT /api/admin/reject-user/:userId\<close>, each behind \<^verbatim>\<open>authMiddleware\<close>.\<close>

definition approve_user :: "env \<Rightarrow> string option \<Rightarrow> oid \<Rightarrow> db \<Rightarrow> response \<times> db" where
  "approve_user E authorization i d =
     (case authMiddleware E authorization of
        Respond r \<Rightarrow> (r, d)
      | Next caller \<Rightarrow>
          (case findByIdAndUpdate_user (users d) i (\<lambda>u. u\<lparr>User.status := ''approved''\<rparr>) of
             (user, us) \<Rightarrow> ((200, UserUpdated ''User approved'' user), d\<lparr>users := us\<rparr>)))"

definition reject_user :: "env \<Rightarrow> string option \<Rightarrow> oid \<Rightarrow> db \<Rightarrow> response \<times> db" where
  "reject_user E authorization i d =
     (case authMiddleware E authorization of
        Respond r \<Rightarrow> (r, d)
      | Next caller \<Rightarrow>
          (case findByIdAndUpdate_user (users d) i (\<lambda>u. u\<lparr>User.status := ''rejected''\<rparr>) of
             (user, us) \<Rightarrow> ((200, UserUpdated ''User rejected'' user), d\<lparr>users := us\<rparr>)))"

subsection \<open>Workshop routes\<close>

text \<open>\<^verbatim>\<open>POST /api/workshops/:workshopId/register\<close>, with the update
  \<^verbatim>\<open>{$push: {attendees: req.userId}}\<close>.\<close>

definition register_workshop :: "env \<Rightarrow> string option \<Rightarrow> oid \<Rightarrow> db \<Rightarrow> response \<times> db" where
  "register_workshop E authorization i d =
     (case authMiddleware E authorization of
        Respond r \<Rightarrow> (r, d)
      | Next caller \<Rightarrow>
          (case findByIdAndUpdate_workshop (workshops d) i
                  (\<lambda>w. w\<lparr>attendees := attendees w @ [caller]\<rparr>) of
             (workshop, ws) \<Rightarrow>
               ((200, WorkshopUpdated ''Registered for event'' workshop),
                d\<lparr>workshops := ws\<rparr>)))"

subsection \<open>Directory route\<close>

text \<open>
  The filter object the directory handler builds: \<open>university\<close> and \<open>status\<close> are
  always set, the four others only for a query parameter that is truthy. The
  \<open>graduationYear\<close> of the filter is what \<^verbatim>\<open>parseInt\<close> returns, \<^verbatim>\<open>NaN\<close> included.
\<close>

record user_filter =
  university :: oid
  status :: string
  graduationYear :: "int option option"
  currentCity :: "string option"
  company :: "string option"
  designation :: "string option"

definition truthy :: "string option \<Rightarrow> string option" where
  "truthy x = (if falsy x then None else x)"

definition directory_filter :: "env \<Rightarrow> oid \<Rightarrow> directory_query \<Rightarrow> user_filter" where
  "directory_filter E universityId q =
     \<lparr>user_filter.university = universityId,
      status = ''approved'',
      graduationYear = map_option (parseInt E) (truthy (directory_query.graduationYear q)),
      currentCity = truthy (directory_query.currentCity q),
      company = truthy (directory_query.company q),
      designation = truthy (directory_query.designation q)\<rparr>"

text \<open>A document matches the filter when it has the value of every path the filter sets.\<close>

definition matches :: "user_filter \<Rightarrow> User \<Rightarrow> bool" where
  "matches f u =
     (User.university u = Some (user_filter.university f)
      \<and> User.status u = user_filter.status f
      \<and> (case user_filter.graduationYear f of
            None \<Rightarrow> True | Some y \<Rightarrow> User.graduationYear u = y)
      \<and> (case user_filter.currentCity f of
            None \<Rightarrow> True | Some c \<Rightarrow> User.currentCity u = c)
      \<and> (case user_filter.company f of
            None \<Rightarrow> True | Some c \<Rightarrow> User.company u = c)
      \<and> (case user_filter.designation f of
            None \<Rightarrow> True | Some g \<Rightarrow> User.designation u = g))"

text \<open>\<^verbatim>\<open>.select('name email company designation currentCity graduationYear profilePhoto')\<close>,
  which keeps \<^verbatim>\<open>_id\<close> as well.\<close>

definition select_entry :: "User \<Rightarrow> directory_entry" where
  "select_entry u =
     \<lparr>directory_entry.ident = User.ident u,
      name = User.name u,
      email = User.email u,
      company = User.company u,
      designation = User.designation u,
      currentCity = User.currentCity u,
      graduationYear = User.graduationYear u,
      profilePhoto = User.profilePhoto u\<rparr>"

text \<open>
  \<^verbatim>\<open>GET /api/users/directory/:universityId\<close>. Mongoose cannot cast \<^verbatim>\<open>NaN\<close> to the
  Number path, so the query throws and the handler answers 500.
\<close>

definition directory :: "env \<Rightarrow> oid \<Rightarrow> directory_query \<Rightarrow> db \<Rightarrow> response" where
  "directory E universityId q d =
     (let query = directory_filter E universityId q in
      if user_filter.graduationYear query = Some None then (500, ErrorExn CastError)
      else (200, UserList (map select_entry (take 50 (filter (matches query) (users d))))))"

section \<open>Sequences of requests\<close>

text \<open>
  The routes above as one request type. Each request runs in its own environment, since
  the clock, the salt and the generated ObjectId differ from request to request. The
  University collection is written by the registration route alone: no other handler
  of the source saves or updates a University.
\<close>

datatype request =
    RegisterUniversity register_body
  | LoginUniversity credentials
  | Signup signup_body
  | Login credentials
  | ApproveUser "string option" oid
  | RejectUser "string option" oid
  | RegisterWorkshop "string option" oid
  | Directory oid directory_query

fun step :: "env \<Rightarrow> request \<Rightarrow> db \<Rightarrow> response \<times> db" where
  "step E (RegisterUniversity b) d = register_university E b d"
| "step E (LoginUniversity b) d = (login_university E b d, d)"
| "step E (Signup b) d = signup E b d"
| "step E (Login b) d = (login E b d, d)"
| "step E (ApproveUser a i) d = approve_user E a i d"
| "step E (RejectUser a i) d = reject_user E a i d"
| "step E (RegisterWorkshop a i) d = register_workshop E a i d"
| "step E (Directory u q) d = (directory E u q d, d)"

fun run :: "(env \<times> request) list \<Rightarrow> db \<Rightarrow> db" where
  "run [] d = d"
| "run ((E, r) # rs) d = run rs (snd (step E r d))"

text \<open>The two admin decisions, and the status each of them writes.\<close>

datatype decision = Approve | Reject

fun decide :: "decision \<Rightarrow> string option \<Rightarrow> oid \<Rightarrow> request" where
  "decide Approve a i = ApproveUser a i"
| "decide Reject a i = RejectUser a i"

fun written :: "decision \<Rightarrow> string" where
  "written Approve = ''approved''"
| "written Reject = ''rejected''"

text \<open>A request passes the gate when the middleware calls \<^verbatim>\<open>next()\<close>.\<close>

definition passes :: "env \<Rightarrow> string option \<Rightarrow> bool" where
  "passes E a = (case authMiddleware E a of Respond r \<Rightarrow> False | Next c \<Rightarrow> True)"

text \<open>The status of the member with a given id, if there is one.\<close>

definition status_of :: "db \<Rightarrow> oid \<Rightarrow> string option" where
  "status_of d i = map_option User.status (findById_user (users d) i)"

text \<open>The attendees of the workshop with a given id, if there is one.\<close>

definition attendees_of :: "db \<Rightarrow> oid \<Rightarrow> oid list option" where
  "attendees_of d i = map_option attendees (findById_workshop (workshops d) i)"

text \<open>Institution emails and slugs are pairwise different.\<close>

definition unique_universities :: "db \<Rightarrow> bool" where
  "unique_universities d =
     (distinct (map University.email (universities d))
      \<and> distinct (map University.slug (universities d)))"

section \<open>The slug as the specification words it\<close>

text \<open>
  The specification describes the slug as the lower-cased name in which every maximal
  run of white space is replaced by one underscore. \<open>runs\<close> cuts a list into its
  maximal runs of elements that agree on a predicate, and \<open>slug_spec\<close> replaces the
  runs of white space.
\<close>

fun runs :: "('a \<Rightarrow> bool) \<Rightarrow> 'a list \<Rightarrow> 'a list list" where
  "runs P [] = []"
| "runs P [x] = [[x]]"
| "runs P (x # y # ys) =
     (if P x = P y
      then (case runs P (y # ys) of
              [] \<Rightarrow> [[x]]
            | r # rs \<Rightarrow> (x # r) # rs)
      else [x] # runs P (y # ys))"

definition slug_spec :: "env \<Rightarrow> string \<Rightarrow> string" where
  "slug_spec E n =
     concat (map (\<lambda>r. if list_all is_space r then ''_'' else r)
                 (runs is_space (toLowerCase E n)))"

section \<open>A sample environment and database\<close>

text \<open>
  Concrete stand-ins for the libraries, used to run the handlers on examples: a hash that
  prefixes the reversed password with a two-character salt, tokens that spell the account
  id in unary and expire at time 100, lower-casing of the ASCII letters, and
  \<^verbatim>\<open>parseInt\<close> on strings of decimal digits.
\<close>

definition sample_hash :: "string \<Rightarrow> string \<Rightarrow> string" where
  "sample_hash p s = take 2 s @ rev p"

definition sample_compare :: "string \<Rightarrow> string \<Rightarrow> bool" where
  "sample_compare p h = (drop 2 h = rev p)"

definition sample_sign :: "oid \<Rightarrow> date \<Rightarrow> string" where
  "sample_sign i t = CHR ''t'' # replicate i (CHR ''i'')"

definition sample_verify :: "string \<Rightarrow> date \<Rightarrow> jwt_payload option" where
  "sample_verify tok t =
     (case tok of
        [] \<Rightarrow> None
      | c # r \<Rightarrow>
          if c = CHR ''t'' \<and> list_all (\<lambda>x. x = CHR ''i'') r \<and> t \<le> 100
          then Some \<lparr>userId = length r, iat = 0, exp = 100\<rparr>
          else None)"

definition sample_lower :: "string \<Rightarrow> string" where
  "sample_lower =
     map (\<lambda>c. if 65 \<le> (of_char c :: nat) \<and> (of_char c :: nat) \<le> 90
              then char_of (of_char c + 32 :: nat) else c)"

definition digit_value :: "char \<Rightarrow> int option" where
  "digit_value c =
     (if 48 \<le> (of_char c :: nat) \<and> (of_char c :: nat) \<le> 57
      then Some (int (of_char c) - 48) else None)"

fun sample_digits :: "int \<Rightarrow> string \<Rightarrow> int option" where
  "sample_digits acc [] = Some acc"
| "sample_digits acc (c # cs) =
     (case digit_value c of
        None \<Rightarrow> None
      | Some v \<Rightarrow> sample_digits (10 * acc + v) cs)"

definition sample_parseInt :: "string \<Rightarrow> int option" where
  "sample_parseInt s = (if s = [] then None else sample_digits 0 s)"

definition sample_env :: env where
  "sample_env =
     \<lparr>bcrypt_hash = sample_hash, bcrypt_compare = sample_compare,
      jwt_sign = sample_sign, jwt_verify = sample_verify,
      toLowerCase = sample_lower, parseInt = sample_parseInt,
      now = 5, genSalt = ''s1'', objectId = 9\<rparr>"

definition sample_university :: University where
  "sample_university =
     \<lparr>University.ident = 1, name = ''State University'', slug = ''state_university'',
      email = ''office@state.edu'', password = ''s0terces'', logo = [],
      description = [], createdAt = 1\<rparr>"

definition sample_user :: "oid \<Rightarrow> string \<Rightarrow> string \<Rightarrow> User" where
  "sample_user i e st =
     \<lparr>User.ident = i, name = ''Asha'', email = e, password = ''s0drowssap'',
      phone = ''555'', profilePhoto = [], role = ''alumni'', university = Some 1,
      status = st, parentEmail = [], parentPhone = [], rollNumber = [],
      courseDegree = [], school = [], graduationYear = Some 2020,
      currentCity = ''Pune'', hometown = [], company = ''Acme'',
      designation = ''Engineer'', bio = [], createdAt = 2\<rparr>"

definition sample_workshop :: Workshop where
  "sample_workshop =
     \<lparr>Workshop.ident = 4, title = ''Reunion'', description = ''Annual meeting'',
      date = 50, time = ''10:00'', location = ''Hall'', isOnline = False,
      meetingLink = [], creator = Some 2, university = Some 1, attendees = [],
      image = [], createdAt = 3\<rparr>"

definition sample_db :: db where
  "sample_db =
     \<lparr>universities = [sample_university],
      users = [sample_user 2 ''p@x.org'' ''pending'',
               sample_user 3 ''r@x.org'' ''rejected'',
               sample_user 6 ''a@x.org'' ''approved''],
      posts = [], comments = [], workshops = [sample_workshop], messages = []\<rparr>"


definition sample_query :: directory_query where
  "sample_query =
     \<lparr>directory_query.graduationYear = Some ''2020'', currentCity = Some ''Pune'',
      company = None, designation = Some []\<rparr>"

definition crowded_db :: db where
  "crowded_db =
     sample_db\<lparr>users := map (\<lambda>k. sample_user k (replicate k (CHR ''a'')) ''approved'')
                              [10 ..< 70]\<rparr>"

definition sample_register :: register_body where
  "sample_register =
     \<lparr>register_body.name = Some ''City  College of Arts'', email = Some ''dean@city.edu'',
      password = Some ''letmein'', other = []\<rparr>"

definition sample_college :: University where
  "sample_college =
     \<lparr>University.ident = 9, name = ''City  College of Arts'',
      slug = ''city_college_of_arts'', email = ''dean@city.edu'',
      password = ''s1niemtel'', logo = [], description = [], createdAt = 5\<rparr>"

definition same_email :: register_body where
  "same_email =
     \<lparr>register_body.name = Some ''Hill College'', email = Some ''office@state.edu'',
      password = Some ''letmein'', other = []\<rparr>"

definition same_slug :: register_body where
  "same_slug =
     \<lparr>register_body.name = Some ''STATE   University'', email = Some ''new@state.edu'',
      password = Some ''letmein'', other = []\<rparr>"

definition sample_decisions :: "(env \<times> string option \<times> decision) list" where
  "sample_decisions =
     [(sample_env, Some ''Bearer tiii'', Approve),
      (sample_env\<lparr>now := 7\<rparr>, Some ''Token tiiiiii'', Reject)]"

section \<open>Member login\<close>

text \<open>A login for the stored, rejected account that sends no password: bcrypt throws,
  and the answer is neither the 401 nor the 403.\<close>

theorem login_without_password_counterexample:
  "findOne_user (users sample_db) (Some ''r@x.org'')
     = Some (sample_user 3 ''r@x.org'' ''rejected'')
   \<and> login sample_env
        \<lparr>credentials.email = Some ''r@x.org'', password = None, other = []\<rparr> sample_db
      = (500, ErrorExn IllegalArguments)"
  by code_simp

text \<open>
  C1, amended. The login handler checks the credentials before the status. An unknown
  email gives 401 "Invalid credentials"; so does a string password that does not verify
  against the stored digest, whatever the status of the account, a rejected one
  included. The 403 "Your account has been rejected" is given when the credentials
  verify and the status is rejected, and only then. A request for a stored email that
  carries no string password gets the 500 of the error bcrypt throws, whatever the
  status.
\<close>

theorem login_credentials_before_status:
  "(findOne_user (users d) (credentials.email b) = None
      \<longrightarrow> login E b d = (401, ErrorMsg ''Invalid credentials''))
   \<and> (\<forall>u p. findOne_user (users d) (credentials.email b) = Some u
          \<and> credentials.password b = Some p
          \<and> \<not> bcrypt_compare E p (User.password u)
      \<longrightarrow> login E b d = (401, ErrorMsg ''Invalid credentials''))
   \<and> (\<forall>u p. findOne_user (users d) (credentials.email b) = Some u
          \<and> credentials.password b = Some p
          \<and> bcrypt_compare E p (User.password u)
          \<and> User.status u = ''rejected''
      \<longrightarrow> login E b d = (403, ErrorMsg ''Your account has been rejected''))
   \<and> (fst (login E b d) = 403
      \<longrightarrow> (\<exists>u p. findOne_user (users d) (credentials.email b) = Some u
            \<and> credentials.password b = Some p
            \<and> bcrypt_compare E p (User.password u)
            \<and> User.status u = ''rejected''))
   \<and> (\<forall>u. findOne_user (users d) (credentials.email b) = Some u
          \<and> credentials.password b = None
      \<longrightarrow> login E b d = (500, ErrorExn IllegalArguments))"
  by (auto simp: login_def comparePassword_def split: option.splits sum.splits)

theorem login_credentials_before_status_witness:
  "findOne_user (users sample_db) (Some ''r@x.org'') = Some (sample_user 3 ''r@x.org'' ''rejected'')
   \<and> \<not> bcrypt_compare sample_env ''wrong'' (User.password (sample_user 3 ''r@x.org'' ''rejected''))
   \<and> bcrypt_compare sample_env ''password'' (User.password (sample_user 3 ''r@x.org'' ''rejected''))
   \<and> User.status (sample_user 3 ''r@x.org'' ''rejected'') = ''rejected''
   \<and> login sample_env
        \<lparr>credentials.email = Some ''r@x.org'', password = Some ''wrong'', other = []\<rparr>
        sample_db = (401, ErrorMsg ''Invalid credentials'')
   \<and> login sample_env
        \<lparr>credentials.email = Some ''r@x.org'', password = Some ''password'', other = []\<rparr>
        sample_db = (403, ErrorMsg ''Your account has been rejected'')
   \<and> findOne_user (users sample_db) (Some ''nobody@x.org'') = None
   \<and> login sample_env
        \<lparr>credentials.email = Some ''nobody@x.org'', password = None, other = []\<rparr>
        sample_db = (401, ErrorMsg ''Invalid credentials'')"
proof -
  let ?u = "sample_user 3 ''r@x.org'' ''rejected''"
  let ?bad = "\<lparr>credentials.email = Some ''r@x.org'', password = Some ''wrong'', other = []\<rparr>"
  let ?good = "\<lparr>credentials.email = Some ''r@x.org'', password = Some ''password'', other = []\<rparr>"
  let ?none = "\<lparr>credentials.email = Some ''nobody@x.org'', password = None, other = []\<rparr>"
  have found: "findOne_user (users sample_db) (Some ''r@x.org'') = Some ?u"
    by code_simp
  have unknown: "findOne_user (users sample_db) (Some ''nobody@x.org'') = None"
    by code_simp
  have wrong: "\<not> bcrypt_compare sample_env ''wrong'' (User.password ?u)"
    by code_simp
  have right: "bcrypt_compare sample_env ''password'' (User.password ?u)"
    by code_simp
  have rejected: "User.status ?u = ''rejected''"
    by code_simp
  have "login sample_env ?bad sample_db = (401, ErrorMsg ''Invalid credentials'')"
    using login_credentials_before_status [of sample_db ?bad sample_env] found wrong
    by simp
  moreover have "login sample_env ?good sample_db
      = (403, ErrorMsg ''Your account has been rejected'')"
    using login_credentials_before_status [of sample_db ?good sample_env] found right rejected
    by simp
  moreover have "login sample_env ?none sample_db = (401, ErrorMsg ''Invalid credentials'')"
    using login_credentials_before_status [of sample_db ?none sample_env] unknown
    by simp
  ultimately show ?thesis
    using found unknown wrong right rejected by simp
qed

lemma find_distinct:
  "distinct (map k xs) \<Longrightarrow> x \<in> set xs \<Longrightarrow> find (\<lambda>y. k y = k x) xs = Some x"
  by (induction xs) (auto simp: image_iff)

text \<open>
  C2. A member whose stored status is pending logs in with correct credentials: the
  answer is 200 with a token signed for that member's id. Member emails are unique in
  the store, as the schema's index has it.
\<close>

theorem login_pending_succeeds:
  assumes "u \<in> set (users d)"
    and "distinct (map User.email (users d))"
    and "User.status u = ''pending''"
    and "credentials.email b = Some (User.email u)"
    and "credentials.password b = Some p"
    and "bcrypt_compare E p (User.password u)"
  shows "login E b d =
           (200, UserLogin ''Login successful'' (jwt_sign E (User.ident u) (now E)) u
                   (populate_university (universities d) (User.university u)))"
proof -
  have "findOne_user (users d) (credentials.email b) = Some u"
    using assms(1,2,4) by (simp add: findOne_user_def find_distinct)
  then show ?thesis
    using assms(3,5,6) by (simp add: login_def comparePassword_def generateToken_def)
qed

theorem login_pending_succeeds_witness:
  "sample_user 2 ''p@x.org'' ''pending'' \<in> set (users sample_db)
   \<and> distinct (map User.email (users sample_db))
   \<and> User.status (sample_user 2 ''p@x.org'' ''pending'') = ''pending''
   \<and> bcrypt_compare sample_env ''password'' (User.password (sample_user 2 ''p@x.org'' ''pending''))
   \<and> login sample_env
        \<lparr>credentials.email = Some ''p@x.org'', password = Some ''password'', other = []\<rparr>
        sample_db
      = (200, UserLogin ''Login successful'' ''tii'' (sample_user 2 ''p@x.org'' ''pending'')
                (Some sample_university))"
proof -
  let ?u = "sample_user 2 ''p@x.org'' ''pending''"
  let ?b = "\<lparr>credentials.email = Some ''p@x.org'', password = Some ''password'', other = []\<rparr>"
  have stored: "?u \<in> set (users sample_db)"
    by (simp add: sample_db_def)
  have unique: "distinct (map User.email (users sample_db))"
    by (simp add: sample_db_def sample_user_def)
  have pending: "User.status ?u = ''pending''"
    by (simp add: sample_user_def)
  have email: "credentials.email ?b = Some (User.email ?u)"
    by (simp add: sample_user_def)
  have password: "credentials.password ?b = Some ''password''"
    by simp
  have verifies: "bcrypt_compare sample_env ''password'' (User.password ?u)"
    by code_simp
  have token: "jwt_sign sample_env (User.ident ?u) (now sample_env) = ''tii''"
    by code_simp
  have populated: "populate_university (universities sample_db) (User.university ?u)
      = Some sample_university"
    by code_simp
  show ?thesis
    using login_pending_succeeds [OF stored unique pending email password verifies]
      stored unique pending verifies token populated
    by simp
qed

section \<open>Member signup\<close>









section \<open>The authorization gate\<close>

text \<open>The token is the second of the segments that single spaces separate in the header:
  there is none when the header has no space.\<close>

lemma split_space_not_Nil: "split_space s \<noteq> []"
  by (induction s) (auto split: list.splits)

lemma split_space_no_space:
  "CHR '' '' \<notin> set s \<Longrightarrow> split_space s = [s]"
  by (induction s) auto

lemma split_space_hd:
  "split_space s = w # ws \<Longrightarrow> w = takeWhile (\<lambda>c. c \<noteq> CHR '' '') s"
  by (induction s arbitrary: w ws) (auto simp: split_space_not_Nil split: list.splits if_splits)

lemma split_space_tl:
  "CHR '' '' \<in> set s \<Longrightarrow>
   split_space s = takeWhile (\<lambda>c. c \<noteq> CHR '' '') s
                    # split_space (tl (dropWhile (\<lambda>c. c \<noteq> CHR '' '') s))"
  by (induction s) (auto split: list.splits simp: split_space_no_space split_space_not_Nil)

lemma bearer_token_header:
  "bearer_token (Some h) =
     (if CHR '' '' \<in> set h
      then Some (takeWhile (\<lambda>c. c \<noteq> CHR '' '') (tl (dropWhile (\<lambda>c. c \<noteq> CHR '' '') h)))
      else None)"
proof (cases "CHR '' '' \<in> set h")
  case True
  let ?r = "tl (dropWhile (\<lambda>c. c \<noteq> CHR '' '') h)"
  obtain w ws where r: "split_space ?r = w # ws"
    using split_space_not_Nil [of ?r] by (cases "split_space ?r") auto
  then have "w = takeWhile (\<lambda>c. c \<noteq> CHR '' '') ?r"
    by (rule split_space_hd)
  with True r show ?thesis
    by (simp add: bearer_token_def index_def split_space_tl)
next
  case False
  then show ?thesis
    by (simp add: bearer_token_def index_def split_space_no_space)
qed

text \<open>A header that has no second segment is present, and the gate still answers that
  no token was provided.\<close>

theorem gate_header_present_counterexample:
  "authMiddleware sample_env (Some ''Bearer'') = Respond (401, ErrorMsg ''No token provided'')
   \<and> Some ''Bearer'' \<noteq> (None :: string option)"
  by code_simp

text \<open>
  C7, amended. The gate answers 401 "No token provided" exactly when no token can be
  taken from the authorization header: the header is missing, or its second
  space-separated segment is absent or empty. It answers 401 "Invalid token" exactly
  when that segment is a non-empty token that jwt.verify refuses. Otherwise it attaches
  the userId of the decoded payload to the request and proceeds.
\<close>

theorem gate_outcomes:
  "(authMiddleware E a = Respond (401, ErrorMsg ''No token provided'')
      \<longleftrightarrow> falsy (bearer_token a))
   \<and> (a = None \<longrightarrow> falsy (bearer_token a))
   \<and> (authMiddleware E a = Respond (401, ErrorMsg ''Invalid token'')
      \<longleftrightarrow> (\<exists>t. bearer_token a = Some t \<and> t \<noteq> [] \<and> jwt_verify E t (now E) = None))
   \<and> (\<forall>t p. bearer_token a = Some t \<and> t \<noteq> [] \<and> jwt_verify E t (now E) = Some p
        \<longrightarrow> authMiddleware E a = Next (userId p))"
  by (auto simp: authMiddleware_def falsy_def bearer_token_def split: option.splits)

theorem gate_outcomes_witness:
  "falsy (bearer_token None)
   \<and> authMiddleware sample_env None = Respond (401, ErrorMsg ''No token provided'')
   \<and> bearer_token (Some ''Bearer tx'') = Some ''tx''
   \<and> jwt_verify sample_env ''tx'' (now sample_env) = None
   \<and> authMiddleware sample_env (Some ''Bearer tx'') = Respond (401, ErrorMsg ''Invalid token'')
   \<and> bearer_token (Some ''Bearer tii'') = Some ''tii''
   \<and> jwt_verify sample_env ''tii'' (now sample_env) = Some \<lparr>userId = 2, iat = 0, exp = 100\<rparr>
   \<and> authMiddleware sample_env (Some ''Bearer tii'') = Next 2"
proof -
  have none: "falsy (bearer_token None)"
    by code_simp
  have bad: "bearer_token (Some ''Bearer tx'') = Some ''tx''"
    "jwt_verify sample_env ''tx'' (now sample_env) = None"
    by code_simp+
  have good: "bearer_token (Some ''Bearer tii'') = Some ''tii''"
    "jwt_verify sample_env ''tii'' (now sample_env) = Some \<lparr>userId = 2, iat = 0, exp = 100\<rparr>"
    by code_simp+
  have "authMiddleware sample_env None = Respond (401, ErrorMsg ''No token provided'')"
    using gate_outcomes [of sample_env None] none by simp
  moreover have "authMiddleware sample_env (Some ''Bearer tx'')
      = Respond (401, ErrorMsg ''Invalid token'')"
    using gate_outcomes [of sample_env "Some ''Bearer tx''"] bad by simp
  moreover have "authMiddleware sample_env (Some ''Bearer tii'') = Next 2"
    using gate_outcomes [of sample_env "Some ''Bearer tii''"] good by simp
  ultimately show ?thesis
    using none bad good by simp
qed

section \<open>Directory\<close>

lemma truthy_Some: "truthy x = Some v \<longleftrightarrow> x = Some v \<and> v \<noteq> []"
  by (auto simp: truthy_def falsy_def split: option.splits)

lemma matches_directory_filter:
  assumes "matches (directory_filter E i q) u"
  shows "User.university u = Some i"
    and "User.status u = ''approved''"
    and "directory_query.graduationYear q = Some y \<Longrightarrow> y \<noteq> []
           \<Longrightarrow> User.graduationYear u = parseInt E y"
    and "directory_query.currentCity q = Some c \<Longrightarrow> c \<noteq> [] \<Longrightarrow> User.currentCity u = c"
    and "directory_query.company q = Some c \<Longrightarrow> c \<noteq> [] \<Longrightarrow> User.company u = c"
    and "directory_query.designation q = Some c \<Longrightarrow> c \<noteq> [] \<Longrightarrow> User.designation u = c"
  using assms
  by (auto simp: matches_def directory_filter_def truthy_def falsy_def split: option.splits)

lemma truthy_truthy: "truthy (truthy x) = truthy x"
  by (simp add: truthy_def falsy_def split: option.splits)

lemma directory_truthy:
  "directory E i q d
     = directory E i
         \<lparr>directory_query.graduationYear = truthy (directory_query.graduationYear q),
          currentCity = truthy (directory_query.currentCity q),
          company = truthy (directory_query.company q),
          designation = truthy (directory_query.designation q)\<rparr> d"
  by (simp add: directory_def directory_filter_def truthy_truthy)

text \<open>A company filter sent empty is dropped, and a member of another company is
  returned.\<close>

theorem directory_empty_filter_counterexample:
  "directory sample_env 1
     \<lparr>directory_query.graduationYear = None, currentCity = None, company = Some [],
      designation = None\<rparr> sample_db
     = (200, UserList [select_entry (sample_user 6 ''a@x.org'' ''approved'')])
   \<and> directory_entry.company (select_entry (sample_user 6 ''a@x.org'' ''approved'')) = ''Acme''"
  by code_simp

text \<open>
  C8, amended. Every record the directory returns is the projection of a stored member
  of the given institution whose status is approved and who has the value of every
  filter supplied with a non-empty value, the graduation year being compared with what
  parseInt makes of the parameter; and at most 50 records are returned. A filter sent
  empty is ignored: the answer is that of the query without it.
\<close>

theorem directory_sound:
  assumes "directory E i q d = (code, UserList es)"
  shows "code = 200 \<and> length es \<le> 50
         \<and> (\<forall>e \<in> set es. \<exists>u \<in> set (users d).
               e = select_entry u
               \<and> User.university u = Some i
               \<and> User.status u = ''approved''
               \<and> (\<forall>y. directory_query.graduationYear q = Some y \<and> y \<noteq> []
                     \<longrightarrow> parseInt E y \<noteq> None \<and> User.graduationYear u = parseInt E y)
               \<and> (\<forall>c. directory_query.currentCity q = Some c \<and> c \<noteq> []
                     \<longrightarrow> User.currentCity u = c)
               \<and> (\<forall>c. directory_query.company q = Some c \<and> c \<noteq> []
                     \<longrightarrow> User.company u = c)
               \<and> (\<forall>c. directory_query.designation q = Some c \<and> c \<noteq> []
                     \<longrightarrow> User.designation u = c))
         \<and> directory E i q d
             = directory E i
                 \<lparr>directory_query.graduationYear = truthy (directory_query.graduationYear q),
                  currentCity = truthy (directory_query.currentCity q),
                  company = truthy (directory_query.company q),
                  designation = truthy (directory_query.designation q)\<rparr> d"
proof -
  let ?f = "directory_filter E i q"
  have es: "es = map select_entry (take 50 (filter (matches ?f) (users d)))"
    and cast: "user_filter.graduationYear ?f \<noteq> Some None"
    using assms by (auto simp: directory_def Let_def split: if_splits)
  have year: "parseInt E y \<noteq> None"
    if "directory_query.graduationYear q = Some y" "y \<noteq> []" for y
    using cast that by (auto simp: directory_filter_def truthy_def falsy_def)
  have "code = 200"
    using assms by (auto simp: directory_def Let_def split: if_splits)
  moreover have "length es \<le> 50"
    by (simp add: es)
  moreover have "\<exists>u \<in> set (users d).
               e = select_entry u
               \<and> User.university u = Some i
               \<and> User.status u = ''approved''
               \<and> (\<forall>y. directory_query.graduationYear q = Some y \<and> y \<noteq> []
                     \<longrightarrow> parseInt E y \<noteq> None \<and> User.graduationYear u = parseInt E y)
               \<and> (\<forall>c. directory_query.currentCity q = Some c \<and> c \<noteq> []
                     \<longrightarrow> User.currentCity u = c)
               \<and> (\<forall>c. directory_query.company q = Some c \<and> c \<noteq> []
                     \<longrightarrow> User.company u = c)
               \<and> (\<forall>c. directory_query.designation q = Some c \<and> c \<noteq> []
                     \<longrightarrow> User.designation u = c)"
    if "e \<in> set es" for e
  proof -
    from that obtain u where u: "u \<in> set (take 50 (filter (matches ?f) (users d)))"
      "e = select_entry u"
      by (auto simp: es)
    from u(1) have "u \<in> set (filter (matches ?f) (users d))"
      by (rule in_set_takeD)
    then have mem: "u \<in> set (users d)" and m: "matches ?f u"
      by simp_all
    show ?thesis
      using mem u(2) matches_directory_filter [OF m] year by blast
  qed
  ultimately show ?thesis
    using directory_truthy [of E i q d] by blast
qed

theorem directory_sound_witness:
  "directory sample_env 1 sample_query sample_db
     = (200, UserList [select_entry (sample_user 6 ''a@x.org'' ''approved'')])
   \<and> (\<exists>u \<in> set (users sample_db).
         select_entry (sample_user 6 ''a@x.org'' ''approved'') = select_entry u
         \<and> User.university u = Some 1
         \<and> User.status u = ''approved''
         \<and> User.graduationYear u = Some 2020
         \<and> User.currentCity u = ''Pune'')"
proof -
  let ?e = "select_entry (sample_user 6 ''a@x.org'' ''approved'')"
  have run: "directory sample_env 1 sample_query sample_db = (200, UserList [?e])"
    by code_simp
  have year: "parseInt sample_env ''2020'' = Some 2020"
    by code_simp
  have "\<exists>u \<in> set (users sample_db).
         ?e = select_entry u
         \<and> User.university u = Some 1
         \<and> User.status u = ''approved''
         \<and> User.graduationYear u = Some 2020
         \<and> User.currentCity u = ''Pune''"
    using directory_sound [OF run] year by (simp add: sample_query_def)
  with run show ?thesis by simp
qed

lemma directory_capped_example:
  "length (users crowded_db) = 60
   \<and> (\<exists>es. directory sample_env 1
               \<lparr>directory_query.graduationYear = None, currentCity = None,
                company = None, designation = None\<rparr> crowded_db = (200, UserList es)
            \<and> length es = 50)"
  by (simp add: directory_def directory_filter_def truthy_def falsy_def crowded_db_def
      matches_def sample_user_def sample_db_def)

section \<open>Institution slug\<close>

text \<open>\<open>runs\<close> cuts a list into non-empty pieces that agree on the predicate, and
  neighbouring pieces disagree, so the pieces are the maximal runs.\<close>

lemma runs_Cons: "runs P (x # xs) \<noteq> []"
  by (induction xs arbitrary: x) (auto split: list.splits)

lemma runs_Nil: "runs P xs = [] \<longleftrightarrow> xs = []"
  by (cases xs) (simp_all add: runs_Cons)

lemma concat_runs: "concat (runs P xs) = xs"
  by (induction P xs rule: runs.induct) (auto simp: runs_Cons split: list.splits)

lemma runs_first:
  "runs P (y # ys) = r # rs \<Longrightarrow> r \<noteq> [] \<and> hd r = y \<and> (\<forall>z \<in> set r. P z = P y)"
proof (induction ys arbitrary: y r rs)
  case Nil
  then show ?case by auto
next
  case (Cons z zs)
  obtain q qs where q: "runs P (z # zs) = q # qs"
    by (cases "runs P (z # zs)") (auto simp: runs_Cons)
  from Cons.IH [OF q] have "\<forall>w \<in> set q. P w = P z"
    by simp
  with Cons.prems q show ?case
    by (cases "P y = P z") auto
qed

lemma runs_agree:
  "r \<in> set (runs P xs) \<Longrightarrow> r \<noteq> [] \<and> (\<forall>z \<in> set r. P z = P (hd r))"
proof (induction P xs arbitrary: r rule: runs.induct)
  case (1 P)
  then show ?case by simp
next
  case (2 P x)
  then show ?case by simp
next
  case (3 P x y ys)
  obtain q qs where q: "runs P (y # ys) = q # qs"
    by (cases "runs P (y # ys)") (auto simp: runs_Cons)
  from runs_first [OF q] have first: "\<forall>z \<in> set q. P z = P y"
    by blast
  have ih: "t \<noteq> [] \<and> (\<forall>z \<in> set t. P z = P (hd t))" if "t \<in> set (q # qs)" for t
  proof -
    from that have t: "t \<in> set (runs P (y # ys))"
      by (simp only: q)
    show ?thesis
    proof (cases "P x = P y")
      case True
      from "3.IH"(1) [OF True t] show ?thesis .
    next
      case False
      from "3.IH"(2) [OF False t] show ?thesis .
    qed
  qed
  show ?case
  proof (cases "P x = P y")
    case True
    then have "runs P (x # y # ys) = (x # q) # qs"
      by (simp add: q)
    with "3.prems" have "r = x # q \<or> r \<in> set qs"
      by auto
    then show ?thesis
    proof
      assume r: "r = x # q"
      have "\<forall>z \<in> set (x # q). P z = P x"
        using True first by auto
      then show ?thesis
        unfolding r by (metis list.sel(1) list.distinct(1))
    next
      assume "r \<in> set qs"
      then have "r \<in> set (q # qs)" by simp
      then show ?thesis by (rule ih)
    qed
  next
    case False
    then have "runs P (x # y # ys) = [x] # q # qs"
      by (simp add: q)
    with "3.prems" have "r = [x] \<or> r \<in> set (q # qs)"
      by auto
    then show ?thesis
    proof
      assume "r = [x]"
      then show ?thesis by simp
    next
      assume "r \<in> set (q # qs)"
      then show ?thesis by (rule ih)
    qed
  qed
qed

lemma runs_maximal:
  "runs P xs = as @ r # s # bs \<Longrightarrow> P (last r) \<noteq> P (hd s)"
proof (induction P xs arbitrary: as r rule: runs.induct)
  case (1 P)
  then show ?case by simp
next
  case (2 P x)
  then show ?case by (cases as) auto
next
  case (3 P x y ys)
  obtain q qs where q: "runs P (y # ys) = q # qs"
    by (cases "runs P (y # ys)") (auto simp: runs_Nil)
  from runs_first [OF q] have first: "q \<noteq> []" "hd q = y"
    by simp_all
  show ?case
  proof (cases "P x = P y")
    case True
    then have eq: "(x # q) # qs = as @ r # s # bs"
      using 3(3) q by simp
    show ?thesis
    proof (cases as)
      case Nil
      with eq have "r = x # q" "qs = s # bs" by simp_all
      with q have "runs P (y # ys) = [] @ q # s # bs" by simp
      from 3(1) [OF True this] first \<open>r = x # q\<close> show ?thesis by simp
    next
      case (Cons a as')
      with eq have "runs P (y # ys) = (q # as') @ r # s # bs"
        using q by simp
      from 3(1) [OF True this] show ?thesis .
    qed
  next
    case False
    then have eq: "[x] # q # qs = as @ r # s # bs"
      using 3(3) q by simp
    show ?thesis
    proof (cases as)
      case Nil
      with eq have "r = [x]" "s = q" by simp_all
      with False first show ?thesis by simp
    next
      case (Cons a as')
      with eq have "runs P (y # ys) = as' @ r # s # bs"
        using q by simp
      from 3(2) [OF False this] show ?thesis .
    qed
  qed
qed

text \<open>The replacement of the source and the wording of the specification agree.\<close>

lemma replace_spaces_runs:
  "replace_spaces xs
     = concat (map (\<lambda>r. if list_all is_space r then ''_'' else r) (runs is_space xs))"
proof (induction "is_space" xs rule: runs.induct)
  case 1
  then show ?case by simp
next
  case (2 x)
  then show ?case by simp
next
  case (3 x y ys)
  obtain q qs where q: "runs is_space (y # ys) = q # qs"
    by (cases "runs is_space (y # ys)") (auto simp: runs_Nil)
  from runs_first [OF q] have "y \<in> set q" and "\<forall>z \<in> set q. is_space z = is_space y"
    by (metis hd_in_set, blast)
  then have all: "list_all is_space q \<longleftrightarrow> is_space y"
    unfolding list_all_iff by blast
  show ?case
  proof (cases "is_space x = is_space y")
    case True
    with 3 q all show ?thesis
      by (cases "is_space y") simp_all
  next
    case False
    with 3 q show ?thesis
      by (cases "is_space y") simp_all
  qed
qed

lemma make_slug_spec: "make_slug E n = slug_spec E n"
  by (simp add: make_slug_def slug_spec_def replace_spaces_runs)

text \<open>
  C5. A successful registration (201) stores and returns one institution record, and the
  slug of that record is the registration name lower-cased, with every maximal run of
  white space replaced by one underscore.
\<close>

theorem register_slug:
  assumes "register_university E b d = ((201, bd), d')"
  shows "\<exists>n tok uni. register_body.name b = Some n
           \<and> bd = UniversityAuth ''University registered successfully'' tok uni
           \<and> universities d' = universities d @ [uni]
           \<and> University.name uni = n
           \<and> University.slug uni = slug_spec E n"
  using assms
  by (auto simp: register_university_def hashPassword_def save_university_def Let_def make_slug_spec
      split: option.splits if_splits)

theorem register_slug_witness:
  "register_university sample_env sample_register sample_db
     = ((201, UniversityAuth ''University registered successfully'' ''tiiiiiiiii''
               sample_college),
        sample_db\<lparr>universities := [sample_university, sample_college]\<rparr>)
   \<and> University.slug sample_college = slug_spec sample_env ''City  College of Arts''
   \<and> slug_spec sample_env ''City  College of Arts'' = ''city_college_of_arts''"
proof -
  have run: "register_university sample_env sample_register sample_db
     = ((201, UniversityAuth ''University registered successfully'' ''tiiiiiiiii''
               sample_college),
        sample_db\<lparr>universities := [sample_university, sample_college]\<rparr>)"
    by code_simp
  have name: "register_body.name sample_register = Some ''City  College of Arts''"
    by (simp add: sample_register_def)
  have "University.slug sample_college = slug_spec sample_env ''City  College of Arts''"
    using register_slug [OF run] name by auto
  moreover have "slug_spec sample_env ''City  College of Arts'' = ''city_college_of_arts''"
    by code_simp
  ultimately show ?thesis
    using run by simp
qed

section \<open>Institution uniqueness\<close>

lemma register_university_cases:
  "snd (register_university E b d) = d
   \<or> (\<exists>u. snd (register_university E b d) = d\<lparr>universities := universities d @ [u]\<rparr>
          \<and> (\<forall>v \<in> set (universities d).
                 University.email v \<noteq> University.email u
                 \<and> University.slug v \<noteq> University.slug u))"
  by (auto simp: register_university_def hashPassword_def save_university_def Let_def
      split: option.splits if_splits)

lemma signup_universities: "universities (snd (signup E b d)) = universities d"
  by (auto simp: signup_def Let_def split: sum.splits)

lemma approve_user_universities: "universities (snd (approve_user E a i d)) = universities d"
  by (auto simp: approve_user_def split: gate.splits prod.splits)

lemma reject_user_universities: "universities (snd (reject_user E a i d)) = universities d"
  by (auto simp: reject_user_def split: gate.splits prod.splits)

lemma register_workshop_universities:
  "universities (snd (register_workshop E a i d)) = universities d"
  by (auto simp: register_workshop_def split: gate.splits prod.splits)

lemma step_unique:
  assumes "unique_universities d"
  shows "unique_universities (snd (step E r d))"
proof (cases r)
  case (RegisterUniversity b)
  from register_university_cases [of E b d] show ?thesis
  proof
    assume "snd (register_university E b d) = d"
    with assms RegisterUniversity show ?thesis by simp
  next
    assume "\<exists>u. snd (register_university E b d) = d\<lparr>universities := universities d @ [u]\<rparr>
          \<and> (\<forall>v \<in> set (universities d).
                 University.email v \<noteq> University.email u
                 \<and> University.slug v \<noteq> University.slug u)"
    then obtain u where u: "snd (register_university E b d)
        = d\<lparr>universities := universities d @ [u]\<rparr>"
      "\<forall>v \<in> set (universities d).
                 University.email v \<noteq> University.email u
                 \<and> University.slug v \<noteq> University.slug u"
      by blast
    from u(2) have "University.email u \<notin> University.email ` set (universities d)"
      "University.slug u \<notin> University.slug ` set (universities d)"
      by auto
    with assms show ?thesis
      by (simp add: RegisterUniversity u(1) unique_universities_def)
  qed
qed (use assms in \<open>simp_all add: unique_universities_def signup_universities
      approve_user_universities reject_user_universities register_workshop_universities\<close>)

lemma run_unique: "unique_universities d \<Longrightarrow> unique_universities (run rs d)"
proof (induction rs arbitrary: d)
  case Nil
  then show ?case by simp
next
  case (Cons x rs)
  obtain E r where x: "x = (E, r)"
    by (cases x)
  from Cons.prems have "unique_universities (snd (step E r d))"
    by (rule step_unique)
  then have "unique_universities (run rs (snd (step E r d)))"
    by (rule Cons.IH)
  then show ?case
    by (simp add: x)
qed

text \<open>
  C6. A registration whose email is the email of a stored institution, or whose derived
  slug is the slug of a stored institution, fails (400 for an empty field, 500 for what
  \<^verbatim>\<open>save()\<close> throws otherwise) and leaves the database as it was. Hence, whatever requests
  are served, institution emails and institution slugs stay pairwise different.
\<close>

theorem institutions_stay_unique:
  "(\<forall>n e. register_body.name b = Some n \<and> register_body.email b = Some e
       \<and> (\<exists>v \<in> set (universities d).
              University.email v = e \<or> University.slug v = make_slug E n)
     \<longrightarrow> (register_university E b d = ((400, ErrorMsg ''All fields required''), d)
          \<or> (\<exists>err. register_university E b d = ((500, ErrorExn err), d))))
   \<and> (unique_universities d \<longrightarrow> unique_universities (run rs d))"
proof
  show "\<forall>n e. register_body.name b = Some n \<and> register_body.email b = Some e
       \<and> (\<exists>v \<in> set (universities d).
              University.email v = e \<or> University.slug v = make_slug E n)
     \<longrightarrow> (register_university E b d = ((400, ErrorMsg ''All fields required''), d)
          \<or> (\<exists>err. register_university E b d = ((500, ErrorExn err), d)))"
    by (auto simp: register_university_def hashPassword_def save_university_def Let_def
        split: option.splits if_splits)
  show "unique_universities d \<longrightarrow> unique_universities (run rs d)"
    by (simp add: run_unique)
qed

theorem institutions_stay_unique_witness:
  "sample_university \<in> set (universities sample_db)
   \<and> register_body.email same_email = Some (University.email sample_university)
   \<and> fst (fst (register_university sample_env same_email sample_db)) = 500
   \<and> snd (register_university sample_env same_email sample_db) = sample_db
   \<and> University.slug sample_university = make_slug sample_env ''STATE   University''
   \<and> fst (fst (register_university sample_env same_slug sample_db)) = 500
   \<and> snd (register_university sample_env same_slug sample_db) = sample_db
   \<and> unique_universities sample_db
   \<and> unique_universities
        (run [(sample_env, RegisterUniversity sample_register),
              (sample_env\<lparr>objectId := 11\<rparr>, RegisterUniversity sample_register),
              (sample_env\<lparr>objectId := 12\<rparr>, RegisterUniversity same_slug)] sample_db)"
proof -
  let ?rs = "[(sample_env, RegisterUniversity sample_register),
              (sample_env\<lparr>objectId := 11\<rparr>, RegisterUniversity sample_register),
              (sample_env\<lparr>objectId := 12\<rparr>, RegisterUniversity same_slug)]"
  have stored: "sample_university \<in> set (universities sample_db)"
    by (simp add: sample_db_def)
  have email: "register_body.name same_email = Some ''Hill College''"
    "register_body.email same_email = Some ''office@state.edu''"
    "University.email sample_university = ''office@state.edu''"
    by (simp_all add: same_email_def sample_university_def)
  have slug: "register_body.name same_slug = Some ''STATE   University''"
    "register_body.email same_slug = Some ''new@state.edu''"
    "University.slug sample_university = make_slug sample_env ''STATE   University''"
    by code_simp+
  have ok: "fst (fst (register_university sample_env same_email sample_db)) \<noteq> 400"
    "fst (fst (register_university sample_env same_slug sample_db)) \<noteq> 400"
    by code_simp+
  have one: "fst (fst (register_university sample_env same_email sample_db)) = 500
      \<and> snd (register_university sample_env same_email sample_db) = sample_db"
    using institutions_stay_unique [of same_email sample_db sample_env "[]"] stored email ok(1)
    by auto
  have two: "fst (fst (register_university sample_env same_slug sample_db)) = 500
      \<and> snd (register_university sample_env same_slug sample_db) = sample_db"
    using institutions_stay_unique [of same_slug sample_db sample_env "[]"] stored slug ok(2)
    by auto
  have unique: "unique_universities sample_db"
    by code_simp
  then have "unique_universities (run ?rs sample_db)"
    using institutions_stay_unique [of same_email sample_db sample_env ?rs] by blast
  with stored email slug(3) one two unique show ?thesis
    by simp
qed

lemma institutions_example:
  "universities
     (run [(sample_env, RegisterUniversity sample_register),
           (sample_env\<lparr>objectId := 11\<rparr>, RegisterUniversity sample_register),
           (sample_env\<lparr>objectId := 12\<rparr>, RegisterUniversity same_slug)] sample_db)
   = [sample_university, sample_college]"
  by code_simp

section \<open>Approval\<close>

lemma find_update_first:
  assumes "\<And>x. p (f x) = p x"
  shows "find p (update_first p f xs) = map_option f (find p xs)"
  using assms by (induction xs) auto

lemma find_update_first_other:
  assumes "\<And>x. q (f x) = q x" and "\<And>x. p x \<Longrightarrow> \<not> q x"
  shows "find q (update_first p f xs) = find q xs"
  using assms by (induction xs) auto

lemma update_first_split:
  "find p xs = Some m \<Longrightarrow>
   \<exists>pre post. xs = pre @ m # post \<and> (\<forall>x \<in> set pre. \<not> p x)
              \<and> update_first p f xs = pre @ f m # post"
proof (induction xs)
  case Nil
  then show ?case by simp
next
  case (Cons x xs)
  show ?case
  proof (cases "p x")
    case True
    with Cons.prems have "x = m" by simp
    with True have "x # xs = [] @ m # xs \<and> (\<forall>x \<in> set []. \<not> p x)
        \<and> update_first p f (x # xs) = [] @ f m # xs"
      by simp
    then show ?thesis by blast
  next
    case False
    with Cons.prems have "find p xs = Some m" by simp
    from Cons.IH [OF this] obtain pre post where
      "xs = pre @ m # post" "\<forall>x \<in> set pre. \<not> p x" "update_first p f xs = pre @ f m # post"
      by blast
    with False have "x # xs = (x # pre) @ m # post \<and> (\<forall>y \<in> set (x # pre). \<not> p y)
        \<and> update_first p f (x # xs) = (x # pre) @ f m # post"
      by simp
    then show ?thesis by blast
  qed
qed

lemma update_first_none: "find p xs = None \<Longrightarrow> update_first p f xs = xs"
  by (induction xs) (auto split: if_splits)

text \<open>What one admin decision does to the database.\<close>

lemma decide_step:
  "snd (step E (decide c a i) d) =
     (if passes E a
      then d\<lparr>users := update_first (\<lambda>u. User.ident u = i)
                          (\<lambda>u. u\<lparr>User.status := written c\<rparr>) (users d)\<rparr>
      else d)"
  by (cases c)
     (auto simp: approve_user_def reject_user_def passes_def findByIdAndUpdate_user_def
       split: gate.splits)

lemma decide_status:
  assumes "passes E a" and "status_of d i \<noteq> None"
  shows "status_of (snd (step E (decide c a i) d)) i = Some (written c)"
proof -
  have "status_of (snd (step E (decide c a i) d)) i
      = map_option User.status (map_option (\<lambda>u. u\<lparr>User.status := written c\<rparr>)
          (findById_user (users d) i))"
    using assms(1)
    by (simp add: decide_step status_of_def findById_user_def find_update_first)
  with assms(2) show ?thesis
    by (auto simp: status_of_def)
qed

text \<open>
  C4. Approving writes the status approved and rejecting writes the status rejected,
  whatever the status was and whoever the authenticated caller is. So after any
  non-empty sequence of approve and reject requests for the id of a stored member, each
  of them passing the gate, the status of that member is the one the last request wrote.
\<close>

theorem last_decision_wins:
  assumes "status_of d i \<noteq> None"
    and "cs \<noteq> []"
    and "\<forall>(E, a, c) \<in> set cs. passes E a"
  shows "status_of (run (map (\<lambda>(E, a, c). (E, decide c a i)) cs) d) i
           = Some (written (snd (snd (last cs))))"
  using assms
proof (induction cs arbitrary: d)
  case Nil
  then show ?case by simp
next
  case (Cons x cs)
  obtain E a c where x: "x = (E, a, c)"
    by (cases x)
  let ?d = "snd (step E (decide c a i) d)"
  from Cons.prems(3) have pass: "passes E a"
    by (simp add: x)
  then have now: "status_of ?d i = Some (written c)"
    using Cons.prems(1) by (rule decide_status)
  show ?case
  proof (cases "cs = []")
    case True
    with now show ?thesis by (simp add: x)
  next
    case False
    from now have "status_of ?d i \<noteq> None" by simp
    moreover have "\<forall>(E, a, c) \<in> set cs. passes E a"
      using Cons.prems(3) by simp
    ultimately have "status_of (run (map (\<lambda>(E, a, c). (E, decide c a i)) cs) ?d) i
           = Some (written (snd (snd (last cs))))"
      using False Cons.IH by blast
    with False show ?thesis by (simp add: x)
  qed
qed

theorem last_decision_wins_witness:
  "status_of sample_db 2 = Some ''pending''
   \<and> passes sample_env (Some ''Bearer tiii'')
   \<and> passes (sample_env\<lparr>now := 7\<rparr>) (Some ''Token tiiiiii'')
   \<and> status_of (run (map (\<lambda>(E, a, c). (E, decide c a 2)) sample_decisions) sample_db) 2
      = Some ''rejected''
   \<and> status_of (run (map (\<lambda>(E, a, c). (E, decide c a 2)) (rev sample_decisions)) sample_db) 2
      = Some ''approved''"
proof -
  have stored: "status_of sample_db 2 = Some ''pending''"
    by code_simp
  then have present: "status_of sample_db 2 \<noteq> None"
    by simp
  have pass: "passes sample_env (Some ''Bearer tiii'')"
    "passes (sample_env\<lparr>now := 7\<rparr>) (Some ''Token tiiiiii'')"
    by code_simp+
  then have gate: "\<forall>(E, a, c) \<in> set sample_decisions. passes E a"
    "\<forall>(E, a, c) \<in> set (rev sample_decisions). passes E a"
    by (simp_all add: sample_decisions_def)
  have some: "sample_decisions \<noteq> []" "rev sample_decisions \<noteq> []"
    by (simp_all add: sample_decisions_def)
  have "status_of (run (map (\<lambda>(E, a, c). (E, decide c a 2)) sample_decisions) sample_db) 2
      = Some ''rejected''"
    using last_decision_wins [OF present some(1) gate(1)]
    by (simp add: sample_decisions_def)
  moreover
  have "status_of (run (map (\<lambda>(E, a, c). (E, decide c a 2)) (rev sample_decisions)) sample_db) 2
      = Some ''approved''"
    using last_decision_wins [OF present some(2) gate(2)]
    by (simp add: sample_decisions_def)
  ultimately show ?thesis
    using stored pass by simp
qed

section \<open>Frame of the admin decisions\<close>

text \<open>
  C10. An approve or reject request for the id of a stored member changes nothing but
  the status field of that member's record: the record keeps its place and every other
  field, every other member record is the same, and the five other collections are the
  same. (A request that the gate refuses changes nothing at all.)
\<close>

theorem decision_frame:
  assumes "findById_user (users d) i = Some m"
    and "d' = snd (step E (decide c a i) d)"
  shows "universities d' = universities d \<and> posts d' = posts d
         \<and> comments d' = comments d \<and> workshops d' = workshops d
         \<and> messages d' = messages d
         \<and> (\<exists>pre post m'. users d = pre @ m # post \<and> users d' = pre @ m' # post
               \<and> m' = (if passes E a then m\<lparr>User.status := written c\<rparr> else m)
               \<and> m'\<lparr>User.status := User.status m\<rparr> = m
               \<and> User.ident m' = User.ident m \<and> User.name m' = User.name m
               \<and> User.email m' = User.email m \<and> User.password m' = User.password m
               \<and> User.university m' = User.university m \<and> User.role m' = User.role m)
         \<and> (\<forall>j. j \<noteq> i \<longrightarrow> findById_user (users d') j = findById_user (users d) j)"
proof -
  let ?p = "\<lambda>u. User.ident u = i"
  let ?f = "\<lambda>u. u\<lparr>User.status := written c\<rparr>"
  from assms(1) have found: "find ?p (users d) = Some m"
    by (simp add: findById_user_def)
  from update_first_split [OF found, of ?f] obtain pre post where
    split: "users d = pre @ m # post" "update_first ?p ?f (users d) = pre @ ?f m # post"
    by blast
  have d': "d' = (if passes E a then d\<lparr>users := update_first ?p ?f (users d)\<rparr> else d)"
    by (simp add: assms(2) decide_step)
  let ?m = "if passes E a then ?f m else m"
  have "users d' = pre @ ?m # post"
    using split by (simp add: d')
  moreover have "?m\<lparr>User.status := User.status m\<rparr> = m"
    by simp
  moreover have "User.ident ?m = User.ident m \<and> User.name ?m = User.name m
      \<and> User.email ?m = User.email m \<and> User.password ?m = User.password m
      \<and> User.university ?m = User.university m \<and> User.role ?m = User.role m"
    by simp
  ultimately have users: "\<exists>pre post m'. users d = pre @ m # post \<and> users d' = pre @ m' # post
               \<and> m' = (if passes E a then m\<lparr>User.status := written c\<rparr> else m)
               \<and> m'\<lparr>User.status := User.status m\<rparr> = m
               \<and> User.ident m' = User.ident m \<and> User.name m' = User.name m
               \<and> User.email m' = User.email m \<and> User.password m' = User.password m
               \<and> User.university m' = User.university m \<and> User.role m' = User.role m"
    using split(1) by blast
  have others: "findById_user (users d') j = findById_user (users d) j" if "j \<noteq> i" for j
  proof -
    have "find (\<lambda>u. User.ident u = j) (update_first ?p ?f (users d))
        = find (\<lambda>u. User.ident u = j) (users d)"
      by (rule find_update_first_other) (use that in simp_all)
    then show ?thesis
      by (simp add: d' findById_user_def)
  qed
  have "universities d' = universities d \<and> posts d' = posts d
         \<and> comments d' = comments d \<and> workshops d' = workshops d
         \<and> messages d' = messages d"
    by (simp add: d')
  with users others show ?thesis
    by blast
qed

theorem decision_frame_witness:
  "findById_user (users sample_db) 2 = Some (sample_user 2 ''p@x.org'' ''pending'')
   \<and> users (snd (step sample_env (decide Approve (Some ''Bearer tiii'') 2) sample_db))
      = [sample_user 2 ''p@x.org'' ''approved'', sample_user 3 ''r@x.org'' ''rejected'',
         sample_user 6 ''a@x.org'' ''approved'']
   \<and> universities (snd (step sample_env (decide Approve (Some ''Bearer tiii'') 2) sample_db))
      = universities sample_db
   \<and> workshops (snd (step sample_env (decide Approve (Some ''Bearer tiii'') 2) sample_db))
      = workshops sample_db
   \<and> findById_user
        (users (snd (step sample_env (decide Approve (Some ''Bearer tiii'') 2) sample_db))) 3
      = findById_user (users sample_db) 3"
proof -
  let ?d = "snd (step sample_env (decide Approve (Some ''Bearer tiii'') 2) sample_db)"
  have found: "findById_user (users sample_db) 2 = Some (sample_user 2 ''p@x.org'' ''pending'')"
    by code_simp
  have after: "users ?d
      = [sample_user 2 ''p@x.org'' ''approved'', sample_user 3 ''r@x.org'' ''rejected'',
         sample_user 6 ''a@x.org'' ''approved'']"
    by code_simp
  have "universities ?d = universities sample_db \<and> workshops ?d = workshops sample_db
      \<and> findById_user (users ?d) 3 = findById_user (users sample_db) 3"
    using decision_frame [OF found refl, of sample_env Approve "Some ''Bearer tiii''"]
    by simp
  with found after show ?thesis
    by simp
qed

section \<open>Workshop attendees\<close>

lemma register_workshop_attendees:
  assumes "authMiddleware E a = Next caller"
  shows "attendees_of (snd (register_workshop E a i d)) i
           = map_option (\<lambda>xs. xs @ [caller]) (attendees_of d i)"
proof -
  have "find (\<lambda>w. Workshop.ident w = i)
          (update_first (\<lambda>w. Workshop.ident w = i)
             (\<lambda>w. w\<lparr>attendees := attendees w @ [caller]\<rparr>) (workshops d))
        = map_option (\<lambda>w. w\<lparr>attendees := attendees w @ [caller]\<rparr>)
            (find (\<lambda>w. Workshop.ident w = i) (workshops d))"
    by (rule find_update_first) simp
  then show ?thesis
    using assms
    by (simp add: register_workshop_def findByIdAndUpdate_workshop_def attendees_of_def
        findById_workshop_def option.map_comp comp_def)
qed

text \<open>The same member registers twice for the sample workshop and is listed twice.\<close>

theorem attendees_twice_counterexample:
  "attendees_of
     (run [(sample_env, RegisterWorkshop (Some ''Bearer tii'') 4),
           (sample_env, RegisterWorkshop (Some ''Bearer tii'') 4)] sample_db) 4
   = Some [2, 2]"
  by code_simp

text \<open>
  C9, amended. The attendees of a workshop are a list of member references. A register
  request that passes the gate, for the id of a stored workshop, appends the caller's id
  at the end of that list and leaves the earlier entries as they are: afterwards the
  caller is an element of the list and occurs in it once more than before, so a member
  who registers again is listed again.
\<close>

theorem register_appends:
  assumes "authMiddleware E a = Next caller"
    and "attendees_of d i = Some xs"
  shows "attendees_of (snd (register_workshop E a i d)) i = Some (xs @ [caller])
         \<and> caller \<in> set (xs @ [caller])
         \<and> count_list (xs @ [caller]) caller = count_list xs caller + 1"
  using register_workshop_attendees [OF assms(1), of i d] assms(2)
  by simp

theorem register_appends_witness:
  "authMiddleware sample_env (Some ''Bearer tii'') = Next 2
   \<and> attendees_of (snd (register_workshop sample_env (Some ''Bearer tii'') 4 sample_db)) 4
      = Some [2]
   \<and> attendees_of
        (snd (register_workshop sample_env (Some ''Bearer tii'') 4
               (snd (register_workshop sample_env (Some ''Bearer tii'') 4 sample_db)))) 4
      = Some [2, 2]"
proof -
  let ?d = "snd (register_workshop sample_env (Some ''Bearer tii'') 4 sample_db)"
  have gate: "authMiddleware sample_env (Some ''Bearer tii'') = Next 2"
    by code_simp
  have before: "attendees_of ?d 4 = Some [2]"
    by code_simp
  from register_appends [OF gate before] show ?thesis
    using gate before by simp
qed

section \<open>Member emails stay unique\<close>

text \<open>
  The login theorem for pending members assumes that member emails are pairwise
  different. The requests preserve this: signup goes through the unique index, and the
  admin decisions write the status only.
\<close>

lemma map_update_first:
  assumes "\<And>x. k (f x) = k x"
  shows "map k (update_first p f xs) = map k xs"
  using assms by (induction xs) auto

lemma signup_users:
  "users (snd (signup E b d)) = users d
   \<or> (\<exists>u. users (snd (signup E b d)) = users d @ [u]
          \<and> (\<forall>v \<in> set (users d). User.email v \<noteq> User.email u))"
  by (auto simp: signup_def hashPassword_def save_user_def Let_def
      split: option.splits sum.splits if_splits)

lemma register_university_users: "users (snd (register_university E b d)) = users d"
  using register_university_cases [of E b d] by (elim disjE exE conjE) simp_all

lemma signup_member_emails:
  assumes "distinct (map User.email (users d))"
  shows "distinct (map User.email (users (snd (signup E b d))))"
  using signup_users [of E b d]
proof
  assume "users (snd (signup E b d)) = users d"
  with assms show ?thesis by simp
next
  assume "\<exists>u. users (snd (signup E b d)) = users d @ [u]
          \<and> (\<forall>v \<in> set (users d). User.email v \<noteq> User.email u)"
  then obtain u where u: "users (snd (signup E b d)) = users d @ [u]"
    "\<forall>v \<in> set (users d). User.email v \<noteq> User.email u"
    by blast
  from u(2) have "User.email u \<notin> User.email ` set (users d)"
    by auto
  with assms show ?thesis
    by (simp add: u(1))
qed

lemma approve_user_emails:
  "map User.email (users (snd (approve_user E a i d))) = map User.email (users d)"
  by (cases "authMiddleware E a")
     (simp_all add: approve_user_def findByIdAndUpdate_user_def map_update_first)

lemma reject_user_emails:
  "map User.email (users (snd (reject_user E a i d))) = map User.email (users d)"
  by (cases "authMiddleware E a")
     (simp_all add: reject_user_def findByIdAndUpdate_user_def map_update_first)

lemma register_workshop_users: "users (snd (register_workshop E a i d)) = users d"
  by (cases "authMiddleware E a")
     (simp_all add: register_workshop_def findByIdAndUpdate_workshop_def)

lemma step_member_emails:
  assumes "distinct (map User.email (users d))"
  shows "distinct (map User.email (users (snd (step E r d))))"
  using assms
  by (cases r)
     (simp_all add: register_university_users signup_member_emails approve_user_emails
       reject_user_emails register_workshop_users)

lemma run_member_emails:
  "distinct (map User.email (users d)) \<Longrightarrow> distinct (map User.email (users (run rs d)))"
proof (induction rs arbitrary: d)
  case Nil
  then show ?case by simp
next
  case (Cons x rs)
  obtain E r where x: "x = (E, r)"
    by (cases x)
  from Cons.prems have "distinct (map User.email (users (snd (step E r d))))"
    by (rule step_member_emails)
  then have "distinct (map User.email (users (run rs (snd (step E r d)))))"
    by (rule Cons.IH)
  then show ?case
    by (simp add: x)
qed

end
